theory Spec2Isabelle
  imports Main "HOL-Library.AList" "HOL-Library.Word"
begin

unbundle bit_operations_syntax

section \<open>Hawck keyboard daemon (KBDDaemon.cpp)\<close>

text \<open>
  The development follows \<^verbatim>\<open>src/KBDDaemon.cpp\<close>. The daemon object is a record;
  every call the daemon makes on a collaborator whose implementation lives in another
  translation unit (syslog, the filesystem watcher, the uinput device \<^verbatim>\<open>udev\<close>, the
  socket \<^verbatim>\<open>kbd_com\<close>, the \<^verbatim>\<open>Keyboard\<close> objects) is recorded, in program order, in the
  field \<open>effects\<close>. What the outside world answers (the result of \<^verbatim>\<open>realpath\<close>, the
  cells of a CSV file, whether a grab succeeds, what the peer sends) is an explicit
  parameter of the functions. Log messages are kept without the quotation marks that
  the format strings put around file names.
\<close>

subsection \<open>Data\<close>

datatype priority = LOG_CRIT | LOG_ERR | LOG_WARNING | LOG_INFO

text \<open>The exception classes that \<^verbatim>\<open>KBDDaemon.cpp\<close> catches, each with its message.\<close>

datatype exn =
    CSVError string
  | SystemError string
  | KeyboardError string
  | SocketError string

text \<open>\<^verbatim>\<open>struct input_event\<close> and the message \<^verbatim>\<open>KBDAction\<close> exchanged with the macro daemon.\<close>

record input_event =
  time_sec :: int
  time_usec :: int
  ev_type :: "16 word"
  ev_code :: "16 word"
  ev_value :: "32 word"

record KBDAction =
  done_flag :: "8 word"
  ev :: input_event

datatype KBDState = OPEN | LOCKED | DISABLED

text \<open>Keyboards are heap objects handled through pointers; a pointer is a number.\<close>

type_synonym kbd_ptr = nat

datatype effect =
    Syslog priority string
  | Cout string
  | FswAdd string
  | Send KBDAction
  | Recv
  | Emit input_event
  | Flush
  | UpAll
  | Recon
  | KbdGet kbd_ptr
  | KbdLock kbd_ptr
  | KbdUnlock kbd_ptr
  | KbdDisable kbd_ptr
  | KbdReset kbd_ptr string

text \<open>
  The members of \<^verbatim>\<open>class KBDDaemon\<close> that the functions below read or write.
  \<open>key_sources\<close> maps a canonical path to the codes loaded from it (an association list
  with one entry per key); \<open>passthrough_keys\<close> is the merged set consulted by the event
  loop; \<open>kbd_state\<close> is the \<^verbatim>\<open>state\<close> member of each \<^verbatim>\<open>Keyboard\<close> object.
\<close>

record KBDDaemon =
  key_sources :: "(string \<times> int list) list"
  passthrough_keys :: "int set"
  available_kbds :: "kbd_ptr list"
  pulled_kbds :: "kbd_ptr list"
  kbd_state :: "kbd_ptr \<Rightarrow> KBDState"
  effects :: "effect list"

definition emit_effect :: "effect \<Rightarrow> KBDDaemon \<Rightarrow> KBDDaemon" where
  "emit_effect e d = d\<lparr>effects := effects d @ [e]\<rparr>"

definition syslog :: "priority \<Rightarrow> string \<Rightarrow> KBDDaemon \<Rightarrow> KBDDaemon" where
  "syslog p msg d = emit_effect (Syslog p msg) d"

text \<open>A freshly constructed daemon, before \<^verbatim>\<open>initPassthrough\<close> and \<^verbatim>\<open>addDevice\<close>.\<close>

definition new_daemon :: KBDDaemon where
  "new_daemon = \<lparr>key_sources = [], passthrough_keys = {}, available_kbds = [],
     pulled_kbds = [], kbd_state = (\<lambda>_. OPEN), effects = []\<rparr>"

subsection \<open>\<^verbatim>\<open>std::stoi\<close>\<close>

text \<open>
  \<^verbatim>\<open>std::stoi(s)\<close> in base 10, as the C++ standard library defines it through
  \<^verbatim>\<open>strtol\<close>: leading white space is skipped, one sign is accepted, the longest run of
  decimal digits is converted and whatever follows is ignored. \<open>None\<close> stands for the two
  exceptions it throws: \<^verbatim>\<open>invalid_argument\<close> when there is no digit, \<^verbatim>\<open>out_of_range\<close>
  when the value does not fit an \<^verbatim>\<open>int\<close>.
\<close>

definition isspace :: "char \<Rightarrow> bool" where
  "isspace c = (c \<in> {CHR '' '', CHR 0x09, CHR 0x0A, CHR 0x0B, CHR 0x0C, CHR 0x0D})"

definition isdigit :: "char \<Rightarrow> bool" where
  "isdigit c = ((48::nat) \<le> of_char c \<and> of_char c \<le> (57::nat))"

definition digits_val :: "string \<Rightarrow> int" where
  "digits_val ds = foldl (\<lambda>acc c. 10 * acc + (of_char c - 48)) 0 ds"

definition stoi :: "string \<Rightarrow> int option" where
  "stoi s =
    (let s1 = dropWhile isspace s;
         neg = (case s1 of c # _ \<Rightarrow> c = CHR ''-'' | [] \<Rightarrow> False);
         s2 = (case s1 of c # r \<Rightarrow> if c = CHR ''-'' \<or> c = CHR ''+'' then r else s1 | [] \<Rightarrow> s1);
         ds = takeWhile isdigit s2;
         v = (if neg then - digits_val ds else digits_val ds)
     in if ds = [] then None
        else if v < - (2 ^ 31) \<or> 2 ^ 31 - 1 < v then None
        else Some v)"

subsection \<open>The passthrough registry\<close>

text \<open>
  What the file system answers during one call of \<^verbatim>\<open>loadPassthrough\<close>:
  \<^item> \<open>realpath\<close>: the canonical path, \<open>None\<close> when \<^verbatim>\<open>realpath()\<close> returns a null pointer;
  \<^item> \<open>csv_key_code\<close>: the outcome of \<^verbatim>\<open>CSV csv(path); csv.getColCells("key_code")\<close>,
    either the exception thrown or the cells of the column (\<^verbatim>\<open>CSV.hpp\<close> is a
    collaborator);
  \<^item> \<open>fsw_add\<close>: the exception \<^verbatim>\<open>keys_fsw.add(path)\<close> throws, if any;
  \<^item> \<open>getuid\<close>: the daemon's user id;
  \<^item> \<open>getgroup\<close>: the exception \<^verbatim>\<open>getgroup(id)\<close> throws, if any (it is declared in
    \<^verbatim>\<open>Permissions.hpp\<close>, a collaborator; \<^verbatim>\<open>run\<close> dereferences its result unchecked);
  \<^item> \<open>fmtPermissions\<close>: the rendering of a stat buffer used in the log message.

  An exception of \<^verbatim>\<open>csv_key_code\<close>, \<^verbatim>\<open>fsw_add\<close> or \<^verbatim>\<open>getgroup\<close> is raised after the
  statements before it have run, so the daemon it leaves behind is the one those
  statements produced.
\<close>

record stat =
  st_mode :: "32 word"
  st_uid :: "32 word"
  st_gid :: "32 word"

record FSEvent =
  path :: string
  mask :: "32 word"
  stbuf :: stat

record filesys =
  realpath :: "string \<Rightarrow> string option"
  csv_key_code :: "string \<Rightarrow> exn + string list"
  fsw_add :: "string \<Rightarrow> exn option"
  getuid :: "32 word"
  getgroup :: "32 word \<Rightarrow> exn option"
  fmtPermissions :: "stat \<Rightarrow> string"

text \<open>
  \<^verbatim>\<open>unloadPassthrough\<close>: when the path has a source, erase each of its codes from the
  merged set, drop the source, then insert again the codes of every remaining source.
\<close>

definition unloadPassthrough :: "string \<Rightarrow> KBDDaemon \<Rightarrow> KBDDaemon" where
  "unloadPassthrough p d =
    (case map_of (key_sources d) p of
       None \<Rightarrow> d
     | Some vec \<Rightarrow>
         let erased = fold (\<lambda>code keys. keys - {code}) vec (passthrough_keys d);
             srcs = AList.delete p (key_sources d);
             d1 = syslog LOG_INFO (''Removing passthrough keys from: '' @ p)
                    (d\<lparr>passthrough_keys := erased, key_sources := srcs\<rparr>);
             readded = fold (\<lambda>(_, vec'). fold insert vec') srcs (passthrough_keys d1)
         in d1\<lparr>passthrough_keys := readded\<rparr>)"

text \<open>
  The loop of \<^verbatim>\<open>loadPassthrough\<close> over the cells: a cell that \<^verbatim>\<open>stoi\<close> rejects is
  skipped, a non-negative value is inserted into the merged set and appended to the
  vector of the new source.
\<close>

definition load_cell :: "string \<Rightarrow> int set \<times> int list \<Rightarrow> int set \<times> int list" where
  "load_cell code_s acc =
    (case stoi code_s of
       None \<Rightarrow> acc
     | Some i \<Rightarrow> if 0 \<le> i then (insert i (fst acc), snd acc @ [i]) else acc)"

text \<open>
  The body of the \<^verbatim>\<open>try\<close> block of \<^verbatim>\<open>loadPassthrough(std::string)\<close>. The second component
  is the exception that leaves the block, if any; the first is the daemon as the block
  left it.
\<close>

definition loadPassthrough_try :: "filesys \<Rightarrow> string \<Rightarrow> KBDDaemon \<Rightarrow> KBDDaemon \<times> exn option" where
  "loadPassthrough_try fs rel_path d =
    (case realpath fs rel_path of
       None \<Rightarrow> (d, Some (SystemError (''Error in realpath() unable to get path for: '' @ rel_path)))
     | Some p \<Rightarrow>
         let d1 = unloadPassthrough p d in
         (case csv_key_code fs p of
            Inl e \<Rightarrow> (d1, Some e)
          | Inr cells \<Rightarrow>
              let acc = fold load_cell cells (passthrough_keys d1, []);
                  d2 = d1\<lparr>passthrough_keys := fst acc,
                          key_sources := AList.update p (snd acc) (key_sources d1)\<rparr>;
                  d3 = emit_effect (FswAdd p) d2
              in (case fsw_add fs p of
                    Some e \<Rightarrow> (d3, Some e)
                  | None \<Rightarrow> (syslog LOG_INFO (''Loaded passthrough keys from: '' @ p) d3, None))))"

text \<open>
  \<^verbatim>\<open>loadPassthrough(std::string)\<close> with its two handlers. An exception of another class
  is not caught and leaves the function.
\<close>

definition loadPassthrough :: "filesys \<Rightarrow> string \<Rightarrow> KBDDaemon \<Rightarrow> KBDDaemon \<times> exn option" where
  "loadPassthrough fs rel_path d =
    (case loadPassthrough_try fs rel_path d of
       (d', None) \<Rightarrow> (d', None)
     | (d', Some (CSVError what)) \<Rightarrow>
         (syslog LOG_ERR (''CSV parse error in '' @ rel_path @ '': '' @ what) d', None)
     | (d', Some (SystemError what)) \<Rightarrow>
         (syslog LOG_ERR (''Unable to load csv data from '' @ rel_path @ '': '' @ what) d', None)
     | (d', Some e) \<Rightarrow> (d', Some e))"

text \<open>
  The constants of the permission gate: \<^verbatim>\<open>S_IRWXU | S_IRWXG | S_IRWXO\<close> is octal 777 and
  the required mode is octal 644.
\<close>

definition S_IRWXUGO :: "32 word" where
  "S_IRWXUGO = 0x1FF"

definition mode_0644 :: "32 word" where
  "mode_0644 = 0x1A4"

text \<open>
  \<^verbatim>\<open>loadPassthrough(FSEvent *)\<close>: the permission gate. The rejecting branch first calls
  \<^verbatim>\<open>getgroup(ev->stbuf.st_uid)\<close>, whose result it binds and never reads, then renders the
  permissions and logs. No handler surrounds the call: an exception of \<^verbatim>\<open>getgroup\<close>
  leaves the function before anything is logged.
\<close>

definition loadPassthroughEv :: "filesys \<Rightarrow> FSEvent \<Rightarrow> KBDDaemon \<Rightarrow> KBDDaemon \<times> exn option" where
  "loadPassthroughEv fs fev d =
    (let perm = st_mode (stbuf fev) AND S_IRWXUGO in
     if perm = mode_0644 \<and> st_uid (stbuf fev) = getuid fs
     then loadPassthrough fs (path fev) d
     else
       (case getgroup fs (st_uid (stbuf fev)) of
          Some e \<Rightarrow> (d, Some e)
        | None \<Rightarrow>
            (syslog LOG_ERR
               (''Invalid permissions for '' @ path fev
                  @ '', require rw-r--r-- hawck-input:*, but was: ''
                  @ fmtPermissions fs (stbuf fev)) d,
             None)))"

text \<open>
  The callback given to \<^verbatim>\<open>keys_fsw.begin\<close> in \<^verbatim>\<open>run\<close>, which runs under the passthrough
  mutex: a deletion unloads, a creation or modification goes through the gate.
\<close>

definition IN_MODIFY :: "32 word" where "IN_MODIFY = 0x2"
definition IN_CREATE :: "32 word" where "IN_CREATE = 0x100"
definition IN_DELETE_SELF :: "32 word" where "IN_DELETE_SELF = 0x400"

definition keys_callback :: "filesys \<Rightarrow> FSEvent \<Rightarrow> KBDDaemon \<Rightarrow> KBDDaemon \<times> exn option" where
  "keys_callback fs fev d =
    (let d1 = syslog LOG_INFO (''kbd file change on: '' @ path fev) d in
     if mask fev AND IN_DELETE_SELF \<noteq> 0 then (unloadPassthrough (path fev) d1, None)
     else if mask fev AND (IN_CREATE OR IN_MODIFY) \<noteq> 0 then loadPassthroughEv fs fev d1
     else (d1, None))"

text \<open>
  A history of registry operations, each with the file system it ran against. A history
  stops at the first exception that leaves an operation.
\<close>

datatype registry_op =
    Load filesys string
  | LoadEv filesys FSEvent
  | Unload string
  | Callback filesys FSEvent

fun apply_op :: "registry_op \<Rightarrow> KBDDaemon \<Rightarrow> KBDDaemon \<times> exn option" where
  "apply_op (Load fs p) d = loadPassthrough fs p d"
| "apply_op (LoadEv fs fev) d = loadPassthroughEv fs fev d"
| "apply_op (Unload p) d = (unloadPassthrough p d, None)"
| "apply_op (Callback fs fev) d = keys_callback fs fev d"

fun run_ops :: "registry_op list \<Rightarrow> KBDDaemon \<Rightarrow> KBDDaemon" where
  "run_ops [] d = d"
| "run_ops (op # ops) d =
    (case apply_op op d of
       (d', None) \<Rightarrow> run_ops ops d'
     | (d', Some e) \<Rightarrow> d')"

text \<open>The union of the code sets of all live sources.\<close>

definition sources_union :: "(string \<times> int list) list \<Rightarrow> int set" where
  "sources_union srcs = \<Union> (set ` ran (map_of srcs))"

text \<open>
  The invariant of the registry: \<open>key_sources\<close> has one entry per path and the merged
  set is the union of the sources.
\<close>

definition registry_inv :: "KBDDaemon \<Rightarrow> bool" where
  "registry_inv d \<longleftrightarrow> distinct (map fst (key_sources d))
     \<and> passthrough_keys d = sources_union (key_sources d)"

text \<open>The codes a column of cells contributes: what the loop over the cells keeps.\<close>

definition parsed_codes :: "string list \<Rightarrow> int list" where
  "parsed_codes cells =
     concat (map (\<lambda>s. case stoi s of None \<Rightarrow> [] | Some i \<Rightarrow> if 0 \<le> i then [i] else []) cells)"

subsection \<open>The event loop of \<^verbatim>\<open>run\<close>\<close>

text \<open>
  Modelled from the spec: the collaborators of the loop whose implementation is not
  part of the sources at hand (\<^verbatim>\<open>kbdMultiplex\<close>, \<^verbatim>\<open>Keyboard::get\<close>, the socket \<^verbatim>\<open>kbd_com\<close>
  and the uinput device \<^verbatim>\<open>udev\<close>). \<^verbatim>\<open>kbdMultiplex\<close>, \<^verbatim>\<open>kbd_com.recon\<close> and the methods of
  \<^verbatim>\<open>udev\<close> return normally and appear as effects only; \<^verbatim>\<open>send\<close> and \<^verbatim>\<open>recv\<close> fail with
  \<^verbatim>\<open>SocketError\<close>, \<^verbatim>\<open>get\<close> with \<^verbatim>\<open>KeyboardError\<close>. What they answer during one iteration of
  the loop:
  \<^item> \<open>kbdMultiplex\<close>: the index returned for the snapshot of the active keyboards,
    \<open>None\<close> for \<open>-1\<close> (nothing ready within 64 ms);
  \<^item> \<open>kbd_get\<close>: the event read by \<^verbatim>\<open>kbd->get\<close>, \<open>None\<close> when it throws \<^verbatim>\<open>KeyboardError\<close>;
  \<^item> \<open>lock_ok\<close>, \<open>unlock_ok\<close>: whether the grab, or its release, succeeds on a keyboard
    (\<^verbatim>\<open>KeyboardError\<close> otherwise);
  \<^item> \<open>send_ok\<close>: whether \<^verbatim>\<open>kbd_com.send\<close> returns (\<^verbatim>\<open>SocketError\<close> otherwise);
  \<^item> \<open>recvs\<close>: the message delivered by the \<open>n\<close>-th call of \<^verbatim>\<open>kbd_com.recv\<close> in this
    iteration, \<open>None\<close> when it throws \<^verbatim>\<open>SocketError\<close> (a timeout included);
  \<^item> \<open>getName\<close>, \<open>getPhys\<close>: the identity strings of a keyboard, used in log messages.
\<close>

record world =
  kbdMultiplex :: "kbd_ptr list \<Rightarrow> nat option"
  kbd_get :: "kbd_ptr \<Rightarrow> input_event option"
  lock_ok :: "kbd_ptr \<Rightarrow> bool"
  unlock_ok :: "kbd_ptr \<Rightarrow> bool"
  send_ok :: bool
  recvs :: "nat \<Rightarrow> KBDAction option"
  getName :: "kbd_ptr \<Rightarrow> string"
  getPhys :: "kbd_ptr \<Rightarrow> string"

text \<open>
  Modelled from the spec: the methods of \<^verbatim>\<open>class Keyboard\<close> (\<^verbatim>\<open>Keyboard.hpp\<close> and its
  implementation are not part of the sources at hand). \<open>lock\<close> acquires the exclusive
  grab and moves the handle to \<open>LOCKED\<close>, or fails and leaves it untouched; \<open>unlock\<close>
  releases the grab and moves it to \<open>OPEN\<close>, or fails; \<open>disable\<close> moves it to \<open>DISABLED\<close>.
  \<open>lock\<close> and \<open>unlock\<close> return the daemon and whether they returned normally (\<open>False\<close>:
  \<^verbatim>\<open>KeyboardError\<close> was thrown).
\<close>

definition kbd_lock :: "world \<Rightarrow> kbd_ptr \<Rightarrow> KBDDaemon \<Rightarrow> KBDDaemon \<times> bool" where
  "kbd_lock w k d =
    (let d1 = emit_effect (KbdLock k) d in
     if lock_ok w k then (d1\<lparr>kbd_state := (kbd_state d1)(k := LOCKED)\<rparr>, True)
     else (d1, False))"

definition kbd_unlock :: "world \<Rightarrow> kbd_ptr \<Rightarrow> KBDDaemon \<Rightarrow> KBDDaemon \<times> bool" where
  "kbd_unlock w k d =
    (let d1 = emit_effect (KbdUnlock k) d in
     if unlock_ok w k then (d1\<lparr>kbd_state := (kbd_state d1)(k := OPEN)\<rparr>, True)
     else (d1, False))"

definition kbd_disable :: "kbd_ptr \<Rightarrow> KBDDaemon \<Rightarrow> KBDDaemon" where
  "kbd_disable k d =
    (let d1 = emit_effect (KbdDisable k) d in d1\<lparr>kbd_state := (kbd_state d1)(k := DISABLED)\<rparr>)"

text \<open>
  The handler of \<^verbatim>\<open>KeyboardError\<close> around the read: disable the keyboard, erase its first
  occurrence from the active list, append it to the list of pulled keyboards.
\<close>

definition on_keyboard_error :: "world \<Rightarrow> kbd_ptr \<Rightarrow> KBDDaemon \<Rightarrow> KBDDaemon" where
  "on_keyboard_error w k d =
    (let d1 = syslog LOG_ERR (''Read error on keyboard, assumed to be removed: '' @ getName w k) d;
         d2 = kbd_disable k d1;
         d3 = d2\<lparr>available_kbds := remove1 k (available_kbds d2)\<rparr>
     in d3\<lparr>pulled_kbds := pulled_kbds d3 @ [k]\<rparr>)"

text \<open>
  The first \<^verbatim>\<open>try\<close> block of an iteration with its handler. The result carries
  \<^verbatim>\<open>had_key\<close> and the event left in \<^verbatim>\<open>action.ev\<close>: \<open>Some e\<close> when a key was read from a
  keyboard that is locked. \<open>None\<close> as a whole stands for undefined behaviour, an index
  outside the snapshot.
\<close>

definition read_key :: "world \<Rightarrow> KBDDaemon \<Rightarrow> (KBDDaemon \<times> input_event option) option" where
  "read_key w d =
    (let kbds = available_kbds d in
     case kbdMultiplex w kbds of
       None \<Rightarrow> Some (d, None)
     | Some idx \<Rightarrow>
         if length kbds \<le> idx then None
         else
           let k = kbds ! idx; d1 = emit_effect (KbdGet k) d in
           (case kbd_get w k of
              None \<Rightarrow> Some (on_keyboard_error w k d1, None)
            | Some e \<Rightarrow>
                if kbd_state d1 k = LOCKED then Some (d1, Some e)
                else if kbd_state d1 k = OPEN then
                  (case kbd_lock w k d1 of
                     (d2, True) \<Rightarrow> Some (d2, None)
                   | (d2, False) \<Rightarrow> Some (on_keyboard_error w k d2, None))
                else Some (d1, None)))"

text \<open>
  The receive loop: \<^verbatim>\<open>for (;; count++) { recv; if (action.done) break; emit; }\<close>. It ends
  with \<open>Some count\<close> at the message marked done and with \<open>None\<close> when \<^verbatim>\<open>recv\<close> throws; a
  peer that keeps sending events without ever marking one done keeps it running, which
  is the value \<open>None\<close> of the whole loop.
\<close>

partial_function (option) recv_loop ::
    "world \<Rightarrow> nat \<Rightarrow> KBDDaemon \<Rightarrow> (KBDDaemon \<times> nat option) option" where
  "recv_loop w count d =
    (let d1 = emit_effect Recv d in
     case recvs w count of
       None \<Rightarrow> Some (d1, None)
     | Some action \<Rightarrow>
         if done_flag action \<noteq> 0 then Some (d1, Some count)
         else recv_loop w (Suc count) (emit_effect (Emit (ev action)) d1))"

text \<open>The two loops of the recovery path over the active keyboards.\<close>

definition unlock_one :: "world \<Rightarrow> kbd_ptr \<Rightarrow> KBDDaemon \<Rightarrow> KBDDaemon" where
  "unlock_one w k d =
    (let d1 = syslog LOG_INFO
                (''Unlocking keyboard due to error: '' @ getName w k @ '' @ '' @ getPhys w k) d in
     case kbd_unlock w k d1 of
       (d2, True) \<Rightarrow> d2
     | (d2, False) \<Rightarrow>
         kbd_disable k (syslog LOG_ERR (''Unable to unlock keyboard: '' @ getName w k) d2))"

definition lock_one :: "world \<Rightarrow> kbd_ptr \<Rightarrow> KBDDaemon \<Rightarrow> KBDDaemon" where
  "lock_one w k d =
    (case kbd_lock w k d of
       (d1, True) \<Rightarrow> d1
     | (d1, False) \<Rightarrow> syslog LOG_ERR (''Unable to lock keyboard: '' @ getName w k) d1)"

text \<open>The handler of \<^verbatim>\<open>SocketError\<close>; \<open>orig_ev\<close> is the copy taken before the exchange.\<close>

definition on_socket_error :: "world \<Rightarrow> input_event \<Rightarrow> KBDDaemon \<Rightarrow> KBDDaemon" where
  "on_socket_error w orig_ev d =
    (let d1 = emit_effect (Cout ''Resetting connection ...'') d;
         d2 = emit_effect (Emit orig_ev) d1;
         d3 = emit_effect UpAll d2;
         d4 = emit_effect Flush d3;
         d5 = emit_effect UpAll d4;
         d6 = emit_effect Flush d5;
         d7 = fold (unlock_one w) (available_kbds d6) d6;
         d8 = syslog LOG_CRIT ''Unable to communicate with MacroD, reconnecting ...'' d7;
         d9 = emit_effect Recon d8
     in fold (lock_one w) (available_kbds d9) d9)"

text \<open>
  The rest of an iteration once a key was read: the passthrough test on
  \<^verbatim>\<open>action.ev.code\<close>, the exchange with the macro daemon and its handler, and the
  direct emission. \<^verbatim>\<open>action.done\<close> is 0 when the action is sent.
\<close>

definition is_passthrough :: "KBDDaemon \<Rightarrow> input_event \<Rightarrow> bool" where
  "is_passthrough d e = (uint (ev_code e) \<in> passthrough_keys d)"

definition dispatch :: "world \<Rightarrow> input_event \<Rightarrow> KBDDaemon \<Rightarrow> KBDDaemon option" where
  "dispatch w e d =
    (if is_passthrough d e then
       (let d1 = emit_effect (Send \<lparr>done_flag = 0, ev = e\<rparr>) d in
        if \<not> send_ok w then Some (on_socket_error w e d1)
        else
          (case recv_loop w 0 d1 of
             None \<Rightarrow> None
           | Some (d2, None) \<Rightarrow> Some (on_socket_error w e d2)
           | Some (d2, Some count) \<Rightarrow>
               let d3 = emit_effect Flush d2 in
               Some (if count = 0 then emit_effect (Cout ''MacroD swallowed event'') d3 else d3)))
     else Some (emit_effect Flush (emit_effect (Emit e) d)))"

text \<open>One iteration of \<^verbatim>\<open>for (;;)\<close>.\<close>

definition iteration :: "world \<Rightarrow> KBDDaemon \<Rightarrow> KBDDaemon option" where
  "iteration w d =
    (case read_key w d of
       None \<Rightarrow> None
     | Some (d1, None) \<Rightarrow> Some d1
     | Some (d1, Some e) \<Rightarrow> dispatch w e d1)"

text \<open>The events handed to \<^verbatim>\<open>udev.emit\<close>, in order.\<close>

definition emitted :: "effect list \<Rightarrow> input_event list" where
  "emitted es = concat (map (\<lambda>x. case x of Emit e \<Rightarrow> [e] | _ \<Rightarrow> []) es)"

subsection \<open>The hotplug callback of \<^verbatim>\<open>run\<close>\<close>

definition FSW_MAX_WAIT_PERMISSIONS_US :: int where
  "FSW_MAX_WAIT_PERMISSIONS_US = 5 * 1000000"

definition wait_inc_us :: int where
  "wait_inc_us = 100"

definition S_IRWXG :: "32 word" where "S_IRWXG = 0x38"
definition S_IFMT :: "32 word" where "S_IFMT = 0xF000"
definition S_IFCHR :: "32 word" where "S_IFCHR = 0x2000"

definition S_ISCHR :: "32 word \<Rightarrow> bool" where
  "S_ISCHR m = (m AND S_IFMT = S_IFCHR)"

text \<open>
  The condition of the \<^verbatim>\<open>do ... while\<close>, as written:
  \<^verbatim>\<open>ret != -1 && !(4 & grp_perm && grp_perm & 2) && stbuf.st_gid != input_gid\<close>
  with \<^verbatim>\<open>grp_perm = stbuf.st_mode & S_IRWXG\<close>. A failed \<^verbatim>\<open>stat\<close> is \<open>None\<close>.
\<close>

definition keep_waiting :: "32 word \<Rightarrow> stat option \<Rightarrow> bool" where
  "keep_waiting input_gid ret =
    (case ret of
       None \<Rightarrow> False
     | Some st \<Rightarrow>
         let grp_perm = st_mode st AND S_IRWXG in
         \<not> (4 AND grp_perm \<noteq> 0 \<and> grp_perm AND 2 \<noteq> 0) \<and> st_gid st \<noteq> input_gid)"

datatype wait_outcome = NotCharDev | TimedOut | Proceed

text \<open>
  The polling loop. \<open>stat_at n\<close> is what the \<open>n\<close>-th call of \<^verbatim>\<open>stat\<close> on the event's path
  returns; each round sleeps \<^verbatim>\<open>wait_inc_us\<close> first. The result is how the loop was left and
  the number of calls of \<^verbatim>\<open>stat\<close> made so far.
\<close>

function wait_permissions ::
    "(nat \<Rightarrow> stat option) \<Rightarrow> 32 word \<Rightarrow> nat \<Rightarrow> int \<Rightarrow> wait_outcome \<times> nat" where
  "wait_permissions stat_at input_gid n wait_time =
    (let ret = stat_at n; wait_time' = wait_time + wait_inc_us in
     if (case ret of None \<Rightarrow> False | Some st \<Rightarrow> \<not> S_ISCHR (st_mode st)) then (NotCharDev, Suc n)
     else if FSW_MAX_WAIT_PERMISSIONS_US < wait_time' then (TimedOut, Suc n)
     else if keep_waiting input_gid ret
       then wait_permissions stat_at input_gid (Suc n) wait_time'
     else (Proceed, Suc n))"
  by pat_completeness auto
termination
  by (relation "measure (\<lambda>(stat_at, input_gid, n, wait_time).
        nat (FSW_MAX_WAIT_PERMISSIONS_US + wait_inc_us - wait_time))")
     (auto simp: wait_inc_us_def)

text \<open>
  What the devices answer during one run of the callback: the successive results of
  \<^verbatim>\<open>stat\<close>, whether \<^verbatim>\<open>kbd->isMe(path)\<close> holds, whether \<^verbatim>\<open>kbd->reset(path)\<close> returns normally.
\<close>

record hotplug =
  stat_at :: "nat \<Rightarrow> stat option"
  isMe :: "kbd_ptr \<Rightarrow> bool"
  reset_ok :: "kbd_ptr \<Rightarrow> bool"

text \<open>
  Modelled from the spec: \<^verbatim>\<open>Keyboard::reset\<close> (not part of the sources at hand) reopens
  the node and leaves the handle \<open>OPEN\<close>, or throws \<^verbatim>\<open>KeyboardError\<close>.
\<close>

definition kbd_reset :: "hotplug \<Rightarrow> kbd_ptr \<Rightarrow> string \<Rightarrow> KBDDaemon \<Rightarrow> KBDDaemon \<times> bool" where
  "kbd_reset h k p d =
    (let d1 = emit_effect (KbdReset k p) d in
     if reset_ok h k then (d1\<lparr>kbd_state := (kbd_state d1)(k := OPEN)\<rparr>, True)
     else (d1, False))"

text \<open>
  The \<^verbatim>\<open>for\<close> loop over \<^verbatim>\<open>pulled_kbds\<close>; \<open>ks\<close> is the part of the list not yet visited and
  \<open>n\<close> the number of calls of \<^verbatim>\<open>stat\<close> made so far. No handler surrounds \<^verbatim>\<open>reset\<close> and
  \<^verbatim>\<open>lock\<close>: their exception leaves the callback (second component \<open>False\<close>).
\<close>

fun hotplug_scan ::
    "world \<Rightarrow> hotplug \<Rightarrow> 32 word \<Rightarrow> string \<Rightarrow> kbd_ptr list \<Rightarrow> nat \<Rightarrow> KBDDaemon
      \<Rightarrow> KBDDaemon \<times> bool" where
  "hotplug_scan w h input_gid p [] n d = (d, True)"
| "hotplug_scan w h input_gid p (k # ks) n d =
    (case wait_permissions (stat_at h) input_gid n 0 of
       (NotCharDev, n') \<Rightarrow>
         (syslog LOG_WARNING (''File '' @ p @ '' is not a character device'') d, True)
     | (TimedOut, n') \<Rightarrow>
         (syslog LOG_ERR (''Could not aquire permissions rw with group input on '' @ p) d, True)
     | (Proceed, n') \<Rightarrow>
         if isMe h k then
           (let d1 = syslog LOG_INFO (''Keyboard was plugged in: '' @ getName w k) d in
            case kbd_reset h k p d1 of
              (d2, False) \<Rightarrow> (d2, False)
            | (d2, True) \<Rightarrow>
                (case kbd_lock w k d2 of
                   (d3, False) \<Rightarrow> (d3, False)
                 | (d3, True) \<Rightarrow>
                     (d3\<lparr>available_kbds := available_kbds d3 @ [k],
                         pulled_kbds := remove1 k (pulled_kbds d3)\<rparr>, True)))
         else hotplug_scan w h input_gid p ks n' d)"

definition hotplug_callback ::
    "world \<Rightarrow> hotplug \<Rightarrow> 32 word \<Rightarrow> FSEvent \<Rightarrow> KBDDaemon \<Rightarrow> KBDDaemon \<times> bool" where
  "hotplug_callback w h input_gid fev d =
    (if path fev = ''/dev/input'' then (d, True)
     else
       let d1 = syslog LOG_INFO (''Input device hotplug event on: '' @ path fev) d in
       hotplug_scan w h input_gid (path fev) (pulled_kbds d1) 0 d1)"

subsection \<open>Concrete inputs\<close>

text \<open>
  A keys directory with two well-formed files, one file that does not parse and one
  path that does not resolve; the daemon runs as user 1000.
\<close>

definition example_fs :: filesys where
  "example_fs =
    \<lparr>realpath = (\<lambda>p. if p = ''/keys/missing.csv'' then None else Some p),
     csv_key_code = (\<lambda>p. if p = ''/keys/a.csv'' then Inr [''10'', ''11'']
                         else if p = ''/keys/b.csv'' then Inr [''11'', ''12'']
                         else Inl (CSVError ''no column key_code'')),
     fsw_add = (\<lambda>p. None),
     getuid = 1000,
     getgroup = (\<lambda>g. None),
     fmtPermissions = (\<lambda>st. ''rw-rw-rw-'')\<rparr>"

text \<open>The same directory after \<^verbatim>\<open>a.csv\<close> was overwritten with text that does not parse.\<close>

definition broken_fs :: filesys where
  "broken_fs = example_fs\<lparr>csv_key_code := (\<lambda>p. Inl (CSVError ''malformed row''))\<rparr>"


definition example_history :: "registry_op list" where
  "example_history = [Load example_fs ''/keys/a.csv'', Load example_fs ''/keys/b.csv'']"

definition loaded_a :: KBDDaemon where
  "loaded_a = run_ops [Load example_fs ''/keys/a.csv''] new_daemon"



text \<open>
  Two locked keyboards, key 30 in the passthrough set, and what the peer may do with a
  press of key 30: close the socket after one reply (\<open>peer_crash\<close>, where keyboard 1
  also refuses the grab), refuse the request (\<open>peer_gone\<close>), answer with two events
  (\<open>peer_transform\<close>) or with none (\<open>peer_swallow\<close>). In \<open>unplugged\<close> keyboard 1 is
  ready and its read fails.
\<close>

definition key_30 :: input_event where
  "key_30 = \<lparr>time_sec = 0, time_usec = 0, ev_type = 1, ev_code = 30, ev_value = 1\<rparr>"

definition key_31 :: input_event where
  "key_31 = \<lparr>time_sec = 0, time_usec = 0, ev_type = 1, ev_code = 31, ev_value = 1\<rparr>"

definition key_57 :: input_event where
  "key_57 = \<lparr>time_sec = 0, time_usec = 0, ev_type = 1, ev_code = 57, ev_value = 1\<rparr>"

definition syn_report :: input_event where
  "syn_report = \<lparr>time_sec = 0, time_usec = 0, ev_type = 0, ev_code = 0, ev_value = 0\<rparr>"

definition two_keyboards :: KBDDaemon where
  "two_keyboards = new_daemon\<lparr>passthrough_keys := {30}, available_kbds := [0, 1],
     kbd_state := (\<lambda>k. LOCKED)\<rparr>"

definition peer_crash :: world where
  "peer_crash =
    \<lparr>kbdMultiplex = (\<lambda>ks. Some 0),
     kbd_get = (\<lambda>k. if k = 0 then Some key_30 else None),
     lock_ok = (\<lambda>k. k \<noteq> 1),
     unlock_ok = (\<lambda>k. True),
     send_ok = True,
     recvs = (\<lambda>n. if n = 0 then Some \<lparr>done_flag = 0, ev = key_57\<rparr> else None),
     getName = (\<lambda>k. ''kbd''),
     getPhys = (\<lambda>k. ''usb'')\<rparr>"

definition peer_gone :: world where
  "peer_gone = peer_crash\<lparr>send_ok := False\<rparr>"

definition peer_transform :: world where
  "peer_transform = peer_crash\<lparr>recvs := (\<lambda>n. if n = 0 then Some \<lparr>done_flag = 0, ev = key_57\<rparr>
       else if n = 1 then Some \<lparr>done_flag = 0, ev = syn_report\<rparr>
       else Some \<lparr>done_flag = 1, ev = syn_report\<rparr>)\<rparr>"

definition peer_swallow :: world where
  "peer_swallow = peer_crash\<lparr>recvs := (\<lambda>n. Some \<lparr>done_flag = 1, ev = key_30\<rparr>)\<rparr>"

definition unplugged :: world where
  "unplugged = peer_crash\<lparr>kbdMultiplex := (\<lambda>ks. Some 1)\<rparr>"

text \<open>
  A device node that is a character device of mode 0600 in group 104, taken to be the
  group \<^verbatim>\<open>input\<close>; keyboard 7 waits to be plugged in again and matches the node.
\<close>

definition restricted_node :: stat where
  "restricted_node = \<lparr>st_mode = 0x2180, st_uid = 0, st_gid = 104\<rparr>"

definition replug :: hotplug where
  "replug = \<lparr>stat_at = (\<lambda>n. Some restricted_node), isMe = (\<lambda>k. True), reset_ok = (\<lambda>k. True)\<rparr>"

definition replug_event :: FSEvent where
  "replug_event = \<lparr>path = ''/dev/input/event9'', mask = IN_CREATE, stbuf = restricted_node\<rparr>"

definition one_pulled :: KBDDaemon where
  "one_pulled = new_daemon\<lparr>pulled_kbds := [7], kbd_state := (\<lambda>k. DISABLED)\<rparr>"

section \<open>The passthrough registry\<close>

subsection \<open>The loops as set operations\<close>

lemma fold_erase: "fold (\<lambda>code keys. keys - {code}) vec K = K - set vec"
  by (induction vec arbitrary: K) auto

lemma fold_insert_set: "fold insert vec K = K \<union> set vec"
  by (induction vec arbitrary: K) auto

lemma fold_readd:
  "fold (\<lambda>(_, vec'). fold insert vec') srcs K = K \<union> \<Union> (set ` snd ` set srcs)"
  by (induction srcs arbitrary: K) (auto simp: fold_insert_set)

lemma fold_load_cell:
  "fold load_cell cells (K, acc) = (K \<union> set (parsed_codes cells), acc @ parsed_codes cells)"
  by (induction cells arbitrary: K acc)
     (auto simp: load_cell_def parsed_codes_def split: option.splits)

lemma syslog_fields [simp]:
  "key_sources (syslog pr m d) = key_sources d"
  "passthrough_keys (syslog pr m d) = passthrough_keys d"
  "available_kbds (syslog pr m d) = available_kbds d"
  "pulled_kbds (syslog pr m d) = pulled_kbds d"
  "kbd_state (syslog pr m d) = kbd_state d"
  "effects (syslog pr m d) = effects d @ [Syslog pr m]"
  by (simp_all add: syslog_def emit_effect_def)

lemma emit_effect_fields [simp]:
  "key_sources (emit_effect e d) = key_sources d"
  "passthrough_keys (emit_effect e d) = passthrough_keys d"
  "available_kbds (emit_effect e d) = available_kbds d"
  "pulled_kbds (emit_effect e d) = pulled_kbds d"
  "kbd_state (emit_effect e d) = kbd_state d"
  "effects (emit_effect e d) = effects d @ [e]"
  by (simp_all add: emit_effect_def)

subsection \<open>The union of the sources\<close>

lemma sources_union_distinct:
  "distinct (map fst srcs) \<Longrightarrow> sources_union srcs = \<Union> (set ` snd ` set srcs)"
  by (simp add: sources_union_def ran_distinct)

lemma sources_union_delete:
  assumes "map_of srcs p = Some vec"
  shows "sources_union srcs = set vec \<union> sources_union (AList.delete p srcs)"
proof -
  have "map_of srcs = ((map_of srcs)(p := None))(p \<mapsto> vec)"
    using assms by (auto simp: fun_eq_iff)
  then have "ran (map_of srcs) = insert vec (ran ((map_of srcs)(p := None)))"
    by (metis fun_upd_same ran_map_upd)
  then show ?thesis
    by (simp add: sources_union_def delete_conv')
qed

lemma sources_union_update:
  assumes "map_of srcs p = None"
  shows "sources_union (AList.update p vec srcs) = sources_union srcs \<union> set vec"
  using assms by (auto simp: sources_union_def update_conv')

subsection \<open>\<^verbatim>\<open>unloadPassthrough\<close>\<close>

lemma unloadPassthrough_sources:
  "key_sources (unloadPassthrough p d) = AList.delete p (key_sources d)"
  by (auto simp: unloadPassthrough_def syslog_def emit_effect_def Let_def delete_id
        map_of_eq_None_iff split: option.splits)

lemma unloadPassthrough_absent:
  "map_of (key_sources d) p = None \<Longrightarrow> unloadPassthrough p d = d"
  by (simp add: unloadPassthrough_def)

lemma unloadPassthrough_keys:
  "map_of (key_sources d) p = Some vec \<Longrightarrow>
   passthrough_keys (unloadPassthrough p d)
     = (passthrough_keys d - set vec) \<union> \<Union> (set ` snd ` set (AList.delete p (key_sources d)))"
  by (simp add: unloadPassthrough_def syslog_def emit_effect_def Let_def fold_erase fold_readd)

lemma unloadPassthrough_inv:
  assumes "registry_inv d"
  shows "registry_inv (unloadPassthrough p d)"
proof (cases "map_of (key_sources d) p")
  case None
  then show ?thesis using assms by (simp add: unloadPassthrough_absent)
next
  case (Some vec)
  let ?srcs = "AList.delete p (key_sources d)"
  have dist: "distinct (map fst ?srcs)"
    using assms by (simp add: registry_inv_def distinct_delete)
  have "passthrough_keys (unloadPassthrough p d)
          = (passthrough_keys d - set vec) \<union> sources_union ?srcs"
    using Some dist by (simp add: unloadPassthrough_keys sources_union_distinct)
  also have "\<dots> = sources_union ?srcs"
    using assms sources_union_delete [OF Some] by (auto simp: registry_inv_def)
  finally show ?thesis
    using dist by (simp add: registry_inv_def unloadPassthrough_sources)
qed

lemma unloadPassthrough_keys_inv:
  assumes "registry_inv d"
  shows "passthrough_keys (unloadPassthrough q d) = sources_union (AList.delete q (key_sources d))"
proof -
  have "registry_inv (unloadPassthrough q d)"
    using assms by (rule unloadPassthrough_inv)
  then have "passthrough_keys (unloadPassthrough q d)
               = sources_union (key_sources (unloadPassthrough q d))"
    by (simp add: registry_inv_def)
  then show ?thesis
    by (simp only: unloadPassthrough_sources)
qed

lemma unload_keeps_other:
  assumes inv: "registry_inv d" and ne: "q \<noteq> p"
    and src: "map_of (key_sources d) q = Some vec" and mem: "c \<in> set vec"
  shows "c \<in> passthrough_keys (unloadPassthrough p d)"
proof -
  have "registry_inv (unloadPassthrough p d)"
    using inv by (rule unloadPassthrough_inv)
  moreover have "map_of (key_sources (unloadPassthrough p d)) q = Some vec"
    using ne src by (simp add: unloadPassthrough_sources delete_conv')
  ultimately show ?thesis
    using mem by (auto simp: registry_inv_def sources_union_def ran_def)
qed

subsection \<open>\<^verbatim>\<open>loadPassthrough\<close>\<close>

lemma loadPassthrough_try_sources:
  "key_sources (fst (loadPassthrough_try fs rel d)) =
     (case realpath fs rel of
        None \<Rightarrow> key_sources d
      | Some p \<Rightarrow>
          (case csv_key_code fs p of
             Inl e \<Rightarrow> AList.delete p (key_sources d)
           | Inr cells \<Rightarrow> AList.update p (parsed_codes cells) (AList.delete p (key_sources d))))"
  by (simp add: loadPassthrough_try_def Let_def fold_load_cell unloadPassthrough_sources
        split: option.splits sum.splits)

lemma loadPassthrough_try_keys:
  "passthrough_keys (fst (loadPassthrough_try fs rel d)) =
     (case realpath fs rel of
        None \<Rightarrow> passthrough_keys d
      | Some p \<Rightarrow>
          (case csv_key_code fs p of
             Inl e \<Rightarrow> passthrough_keys (unloadPassthrough p d)
           | Inr cells \<Rightarrow> passthrough_keys (unloadPassthrough p d) \<union> set (parsed_codes cells)))"
  by (simp add: loadPassthrough_try_def Let_def fold_load_cell
        split: option.splits sum.splits)

lemma loadPassthrough_registry:
  "key_sources (fst (loadPassthrough fs rel d)) = key_sources (fst (loadPassthrough_try fs rel d))"
  "passthrough_keys (fst (loadPassthrough fs rel d))
     = passthrough_keys (fst (loadPassthrough_try fs rel d))"
  by (auto simp: loadPassthrough_def split: prod.splits option.splits exn.splits)

lemma loadPassthrough_inv:
  assumes "registry_inv d"
  shows "registry_inv (fst (loadPassthrough fs rel d))"
proof (cases "realpath fs rel")
  case None
  then show ?thesis
    using assms
    by (simp add: registry_inv_def loadPassthrough_registry loadPassthrough_try_sources
          loadPassthrough_try_keys)
next
  case (Some p)
  have inv1: "registry_inv (unloadPassthrough p d)"
    using assms by (rule unloadPassthrough_inv)
  have absent: "map_of (AList.delete p (key_sources d)) p = None"
    by (simp add: delete_conv')
  show ?thesis
  proof (cases "csv_key_code fs p")
    case (Inl e)
    then show ?thesis
      using Some inv1
      by (simp add: registry_inv_def loadPassthrough_registry loadPassthrough_try_sources
            loadPassthrough_try_keys unloadPassthrough_sources)
  next
    case (Inr cells)
    then show ?thesis
      using Some inv1 absent
      by (simp add: registry_inv_def loadPassthrough_registry loadPassthrough_try_sources
            loadPassthrough_try_keys unloadPassthrough_sources distinct_update
            sources_union_update)
  qed
qed

lemma registry_inv_syslog [simp]: "registry_inv (syslog pr m d) = registry_inv d"
  by (simp add: registry_inv_def)

lemma loadPassthroughEv_rejected:
  assumes "\<not> (st_mode (stbuf fev) AND S_IRWXUGO = mode_0644 \<and> st_uid (stbuf fev) = getuid fs)"
  shows "key_sources (fst (loadPassthroughEv fs fev d)) = key_sources d"
    and "passthrough_keys (fst (loadPassthroughEv fs fev d)) = passthrough_keys d"
  using assms by (auto simp: loadPassthroughEv_def Let_def split: option.splits)


lemma loadPassthroughEv_accepted:
  assumes "st_mode (stbuf fev) AND S_IRWXUGO = mode_0644 \<and> st_uid (stbuf fev) = getuid fs"
  shows "loadPassthroughEv fs fev d = loadPassthrough fs (path fev) d"
  using assms by (simp add: loadPassthroughEv_def Let_def)

lemma loadPassthroughEv_inv:
  assumes "registry_inv d"
  shows "registry_inv (fst (loadPassthroughEv fs fev d))"
proof (cases "st_mode (stbuf fev) AND S_IRWXUGO = mode_0644 \<and> st_uid (stbuf fev) = getuid fs")
  case True
  show ?thesis
    unfolding loadPassthroughEv_accepted [OF True] using assms by (rule loadPassthrough_inv)
next
  case False
  show ?thesis
    using assms
    unfolding registry_inv_def loadPassthroughEv_rejected [OF False] .
qed


lemma keys_callback_inv:
  "registry_inv d \<Longrightarrow> registry_inv (fst (keys_callback fs fev d))"
  by (simp add: keys_callback_def Let_def loadPassthroughEv_inv unloadPassthrough_inv)

subsection \<open>Histories\<close>

lemma apply_op_inv: "registry_inv d \<Longrightarrow> registry_inv (fst (apply_op op d))"
  by (cases op) (simp_all add: loadPassthrough_inv loadPassthroughEv_inv keys_callback_inv
        unloadPassthrough_inv)

lemma run_ops_inv: "registry_inv d \<Longrightarrow> registry_inv (run_ops ops d)"
proof (induction ops arbitrary: d)
  case Nil
  then show ?case by simp
next
  case (Cons op ops)
  from Cons.prems have "registry_inv (fst (apply_op op d))"
    by (rule apply_op_inv)
  then show ?case
    by (cases "apply_op op d") (auto split: option.splits intro: Cons.IH)
qed

lemma new_daemon_inv: "registry_inv new_daemon"
  by (simp add: registry_inv_def new_daemon_def sources_union_def)

lemma reachable_inv: "registry_inv (run_ops ops new_daemon)"
  by (rule run_ops_inv [OF new_daemon_inv])

text \<open>
  C2. After any history of load and unload operations (direct calls, calls through the
  permission gate and calls through the watcher callback) on a freshly constructed
  daemon, the merged set \<open>passthrough_keys\<close> is the union of the code vectors of the
  sources that \<open>key_sources\<close> holds; and unloading a path \<open>p\<close> from such a registry
  keeps every code of every other live source \<open>q\<close>.
\<close>

theorem C2_merged_is_union_of_live_sources:
  "passthrough_keys (run_ops ops new_daemon) = sources_union (key_sources (run_ops ops new_daemon))
   \<and> (\<forall>p q vec c. q \<noteq> p \<and> map_of (key_sources (run_ops ops new_daemon)) q = Some vec \<and> c \<in> set vec
         \<longrightarrow> c \<in> passthrough_keys (unloadPassthrough p (run_ops ops new_daemon)))"
  using reachable_inv [of ops] unload_keeps_other [OF reachable_inv [of ops]]
  by (auto simp: registry_inv_def)

text \<open>
  With \<^verbatim>\<open>a.csv\<close> holding 10 and 11 and \<^verbatim>\<open>b.csv\<close> holding 11 and 12, unloading \<^verbatim>\<open>a.csv\<close>
  keeps 11.
\<close>

theorem C2_witness:
  "''/keys/b.csv'' \<noteq> ''/keys/a.csv''
   \<and> map_of (key_sources (run_ops example_history new_daemon)) ''/keys/b.csv'' = Some [11, 12]
   \<and> (11::int) \<in> set [11, 12]
   \<and> 11 \<in> passthrough_keys (unloadPassthrough ''/keys/a.csv'' (run_ops example_history new_daemon))"
proof -
  have ne: "''/keys/b.csv'' \<noteq> ''/keys/a.csv''"
    by simp
  have src: "map_of (key_sources (run_ops example_history new_daemon)) ''/keys/b.csv''
               = Some [11, 12]"
    by code_simp
  have mem: "(11::int) \<in> set [11, 12]"
    by simp
  have "11 \<in> passthrough_keys (unloadPassthrough ''/keys/a.csv'' (run_ops example_history new_daemon))"
    by (rule C2_merged_is_union_of_live_sources
          [of example_history, THEN conjunct2, rule_format, OF conjI [OF ne conjI [OF src mem]]])
  with ne src mem show ?thesis
    by (intro conjI)
qed

text \<open>
  C9. On a registry reached by any history, loading a path twice against the same file
  system leaves \<open>key_sources\<close> and \<open>passthrough_keys\<close> as one load leaves them: the
  second load removes the source the first one installed and installs it again.
\<close>

theorem C9_load_twice_is_load_once:
  "key_sources (fst (loadPassthrough fs p (fst (loadPassthrough fs p (run_ops ops new_daemon)))))
     = key_sources (fst (loadPassthrough fs p (run_ops ops new_daemon)))
   \<and> passthrough_keys (fst (loadPassthrough fs p (fst (loadPassthrough fs p (run_ops ops new_daemon)))))
     = passthrough_keys (fst (loadPassthrough fs p (run_ops ops new_daemon)))"
proof -
  define d where "d = run_ops ops new_daemon"
  define d1 where "d1 = fst (loadPassthrough fs p d)"
  define d2 where "d2 = fst (loadPassthrough fs p d1)"
  have inv: "registry_inv d"
    unfolding d_def by (rule reachable_inv)
  have inv1: "registry_inv d1"
    unfolding d1_def using inv by (rule loadPassthrough_inv)
  have "key_sources d2 = key_sources d1 \<and> passthrough_keys d2 = passthrough_keys d1"
  proof (cases "realpath fs p")
    case None
    then show ?thesis
      unfolding d2_def d1_def
      by (simp add: loadPassthrough_registry loadPassthrough_try_sources loadPassthrough_try_keys)
  next
    case (Some q)
    show ?thesis
    proof (cases "csv_key_code fs q")
      case (Inl e)
      have s1: "key_sources d1 = AList.delete q (key_sources d)"
        unfolding d1_def using Some Inl
        by (simp add: loadPassthrough_registry loadPassthrough_try_sources)
      have k1: "passthrough_keys d1 = sources_union (AList.delete q (key_sources d))"
        unfolding d1_def using Some Inl
        by (simp add: loadPassthrough_registry loadPassthrough_try_keys
              unloadPassthrough_keys_inv [OF inv])
      have s2: "key_sources d2 = AList.delete q (key_sources d1)"
        unfolding d2_def using Some Inl
        by (simp add: loadPassthrough_registry loadPassthrough_try_sources)
      have k2: "passthrough_keys d2 = sources_union (AList.delete q (key_sources d1))"
        unfolding d2_def using Some Inl
        by (simp add: loadPassthrough_registry loadPassthrough_try_keys
              unloadPassthrough_keys_inv [OF inv1])
      show ?thesis
        by (simp add: s1 k1 s2 k2 delete_idem)
    next
      case (Inr cells)
      let ?v = "parsed_codes cells"
      have s1: "key_sources d1 = AList.update q ?v (AList.delete q (key_sources d))"
        unfolding d1_def using Some Inr
        by (simp add: loadPassthrough_registry loadPassthrough_try_sources)
      have k1: "passthrough_keys d1 = sources_union (AList.delete q (key_sources d)) \<union> set ?v"
        unfolding d1_def using Some Inr
        by (simp add: loadPassthrough_registry loadPassthrough_try_keys
              unloadPassthrough_keys_inv [OF inv])
      have s2: "key_sources d2 = AList.update q ?v (AList.delete q (key_sources d1))"
        unfolding d2_def using Some Inr
        by (simp add: loadPassthrough_registry loadPassthrough_try_sources)
      have k2: "passthrough_keys d2 = sources_union (AList.delete q (key_sources d1)) \<union> set ?v"
        unfolding d2_def using Some Inr
        by (simp add: loadPassthrough_registry loadPassthrough_try_keys
              unloadPassthrough_keys_inv [OF inv1])
      have "AList.delete q (key_sources d1) = AList.delete q (key_sources d)"
        by (simp add: s1 delete_update_same delete_idem)
      then show ?thesis
        by (simp add: s1 k1 s2 k2)
    qed
  qed
  then show ?thesis
    unfolding d2_def d1_def d_def .
qed

text \<open>
  C10. When \<^verbatim>\<open>realpath\<close> fails, \<^verbatim>\<open>loadPassthrough\<close> leaves \<open>key_sources\<close> and
  \<open>passthrough_keys\<close> as they were, lets no exception out and adds one error record to
  the log.
\<close>

theorem C10_unresolvable_path_is_noop:
  assumes "realpath fs rel_path = None"
  shows "key_sources (fst (loadPassthrough fs rel_path d)) = key_sources d
    \<and> passthrough_keys (fst (loadPassthrough fs rel_path d)) = passthrough_keys d
    \<and> snd (loadPassthrough fs rel_path d) = None
    \<and> effects (fst (loadPassthrough fs rel_path d))
        = effects d @ [Syslog LOG_ERR (''Unable to load csv data from '' @ rel_path @ '': ''
             @ ''Error in realpath() unable to get path for: '' @ rel_path)]"
  using assms by (simp add: loadPassthrough_def loadPassthrough_try_def)

theorem C10_witness:
  "realpath example_fs ''/keys/missing.csv'' = None
   \<and> key_sources (fst (loadPassthrough example_fs ''/keys/missing.csv'' loaded_a)) = key_sources loaded_a
   \<and> passthrough_keys (fst (loadPassthrough example_fs ''/keys/missing.csv'' loaded_a))
       = passthrough_keys loaded_a
   \<and> snd (loadPassthrough example_fs ''/keys/missing.csv'' loaded_a) = None"
proof -
  have h: "realpath example_fs ''/keys/missing.csv'' = None"
    by (simp add: example_fs_def)
  show ?thesis
    using h C10_unresolvable_path_is_noop [OF h, of loaded_a] by simp
qed

text \<open>
  C5, as stated, fails: \<^verbatim>\<open>unloadPassthrough\<close> runs before the file is parsed. With
  \<^verbatim>\<open>a.csv\<close> loaded (codes 10 and 11) and then overwritten by text that does not parse,
  the failed reload leaves the merged set empty and the source gone.
\<close>

theorem C5_failed_reload_counterexample:
  "realpath broken_fs ''/keys/a.csv'' = Some ''/keys/a.csv''
   \<and> csv_key_code broken_fs ''/keys/a.csv'' = Inl (CSVError ''malformed row'')
   \<and> passthrough_keys loaded_a = {10, 11}
   \<and> passthrough_keys (fst (loadPassthrough broken_fs ''/keys/a.csv'' loaded_a)) = {}
   \<and> map_of (key_sources loaded_a) ''/keys/a.csv'' = Some [10, 11]
   \<and> map_of (key_sources (fst (loadPassthrough broken_fs ''/keys/a.csv'' loaded_a))) ''/keys/a.csv'' = None"
  by code_simp

text \<open>
  C5, amended. When the CSV file at the resolved path \<open>p\<close> does not parse,
  \<^verbatim>\<open>loadPassthrough\<close> logs the error, lets no exception out and installs no source; the
  daemon it leaves is the one \<^verbatim>\<open>unloadPassthrough p\<close> leaves, with the error record
  appended to the log.
\<close>

theorem C5_failed_load_leaves_unloaded_registry:
  assumes "realpath fs rel_path = Some p" and "csv_key_code fs p = Inl (CSVError what)"
  shows "loadPassthrough fs rel_path d
           = (syslog LOG_ERR (''CSV parse error in '' @ rel_path @ '': '' @ what)
                (unloadPassthrough p d), None)"
  using assms by (simp add: loadPassthrough_def loadPassthrough_try_def)

theorem C5_witness:
  "realpath broken_fs ''/keys/a.csv'' = Some ''/keys/a.csv''
   \<and> csv_key_code broken_fs ''/keys/a.csv'' = Inl (CSVError ''malformed row'')
   \<and> loadPassthrough broken_fs ''/keys/a.csv'' loaded_a
       = (syslog LOG_ERR (''CSV parse error in '' @ ''/keys/a.csv'' @ '': '' @ ''malformed row'')
            (unloadPassthrough ''/keys/a.csv'' loaded_a), None)"
proof -
  have h1: "realpath broken_fs ''/keys/a.csv'' = Some ''/keys/a.csv''"
    by (simp add: broken_fs_def example_fs_def)
  have h2: "csv_key_code broken_fs ''/keys/a.csv'' = Inl (CSVError ''malformed row'')"
    by (simp add: broken_fs_def)
  show ?thesis
    using h1 h2 C5_failed_load_leaves_unloaded_registry [OF h1 h2, of loaded_a] by simp
qed




section \<open>The event loop\<close>

subsection \<open>The receive loop\<close>

lemma emitted_append [simp]: "emitted (xs @ ys) = emitted xs @ emitted ys"
  by (simp add: emitted_def)

lemma emitted_simps [simp]:
  "emitted [] = []"
  "emitted (Emit e # es) = e # emitted es"
  "emitted (Recv # es) = emitted es"
  "emitted (Flush # es) = emitted es"
  "emitted (Send a # es) = emitted es"
  "emitted (Cout s # es) = emitted es"
  by (simp_all add: emitted_def)

lemma emitted_recv_emit [simp]:
  "emitted (concat (map (\<lambda>a. [Recv, Emit (ev a)]) msgs)) = map ev msgs"
  by (induction msgs) simp_all

lemma recv_loop_done:
  assumes "\<forall>i<length msgs. recvs w (c + i) = Some (msgs ! i) \<and> done_flag (msgs ! i) = 0"
    and "recvs w (c + length msgs) = Some fin" and "done_flag fin \<noteq> 0"
  shows "recv_loop w c d =
    Some (d\<lparr>effects := effects d @ concat (map (\<lambda>a. [Recv, Emit (ev a)]) msgs) @ [Recv]\<rparr>,
          Some (c + length msgs))"
  using assms
proof (induction msgs arbitrary: c d)
  case Nil
  then show ?case
    by (subst recv_loop.simps) (simp add: emit_effect_def)
next
  case (Cons m msgs)
  from Cons.prems(1) have hd: "recvs w c = Some m" "done_flag m = 0"
    by force+
  have tl: "\<forall>i<length msgs. recvs w (Suc c + i) = Some (msgs ! i) \<and> done_flag (msgs ! i) = 0"
  proof (intro allI impI)
    fix i assume "i < length msgs"
    then have "Suc i < length (m # msgs)" by simp
    with Cons.prems(1) have "recvs w (c + Suc i) = Some ((m # msgs) ! Suc i)
        \<and> done_flag ((m # msgs) ! Suc i) = 0"
      by blast
    then show "recvs w (Suc c + i) = Some (msgs ! i) \<and> done_flag (msgs ! i) = 0"
      by simp
  qed
  have fin: "recvs w (Suc c + length msgs) = Some fin"
    using Cons.prems(2) by simp
  show ?case
    by (subst recv_loop.simps)
       (simp add: hd Cons.IH [OF tl fin Cons.prems(3)] emit_effect_def)
qed

lemma recv_loop_error:
  assumes "\<forall>i<length msgs. recvs w (c + i) = Some (msgs ! i) \<and> done_flag (msgs ! i) = 0"
    and "recvs w (c + length msgs) = None"
  shows "recv_loop w c d =
    Some (d\<lparr>effects := effects d @ concat (map (\<lambda>a. [Recv, Emit (ev a)]) msgs) @ [Recv]\<rparr>,
          None)"
  using assms
proof (induction msgs arbitrary: c d)
  case Nil
  then show ?case
    by (subst recv_loop.simps) (simp add: emit_effect_def)
next
  case (Cons m msgs)
  from Cons.prems(1) have hd: "recvs w c = Some m" "done_flag m = 0"
    by force+
  have tl: "\<forall>i<length msgs. recvs w (Suc c + i) = Some (msgs ! i) \<and> done_flag (msgs ! i) = 0"
  proof (intro allI impI)
    fix i assume "i < length msgs"
    then have "Suc i < length (m # msgs)" by simp
    with Cons.prems(1) have "recvs w (c + Suc i) = Some ((m # msgs) ! Suc i)
        \<and> done_flag ((m # msgs) ! Suc i) = 0"
      by blast
    then show "recvs w (Suc c + i) = Some (msgs ! i) \<and> done_flag (msgs ! i) = 0"
      by simp
  qed
  have fin: "recvs w (Suc c + length msgs) = None"
    using Cons.prems(2) by simp
  show ?case
    by (subst recv_loop.simps)
       (simp add: hd Cons.IH [OF tl fin] emit_effect_def)
qed

text \<open>
  C8. An event whose code is not in \<open>passthrough_keys\<close> is handed to \<^verbatim>\<open>udev.emit\<close> and
  flushed, and that is all the iteration does with it: nothing is sent to or received
  from the peer. (\<open>dispatch\<close> is the part of an iteration that follows a read from a
  locked keyboard.)
\<close>

theorem C8_non_passthrough_emitted_directly:
  assumes "uint (ev_code e) \<notin> passthrough_keys d"
  shows "dispatch w e d = Some (d\<lparr>effects := effects d @ [Emit e, Flush]\<rparr>)"
  using assms by (simp add: dispatch_def is_passthrough_def emit_effect_def)

theorem C8_witness:
  "uint (ev_code key_31) \<notin> passthrough_keys two_keyboards
   \<and> dispatch peer_crash key_31 two_keyboards
       = Some (two_keyboards\<lparr>effects := effects two_keyboards @ [Emit key_31, Flush]\<rparr>)"
proof -
  have h: "uint (ev_code key_31) \<notin> passthrough_keys two_keyboards"
    by (simp add: key_31_def two_keyboards_def)
  show ?thesis
    using h C8_non_passthrough_emitted_directly [OF h, of peer_crash] by simp
qed

text \<open>
  C3. For an event whose code is in \<open>passthrough_keys\<close>, when the request is sent and
  the peer answers with the messages \<open>msgs\<close>, none marked done, followed by a message
  marked done: the iteration completes, the events handed to \<^verbatim>\<open>udev.emit\<close> are exactly
  the events of \<open>msgs\<close> in order, followed by one flush, and the original event is not
  emitted. With no reply event nothing is emitted.
\<close>

theorem C3_reply_replaces_original:
  assumes "uint (ev_code e) \<in> passthrough_keys d" and "send_ok w"
    and "\<forall>i<length msgs. recvs w i = Some (msgs ! i) \<and> done_flag (msgs ! i) = 0"
    and "recvs w (length msgs) = Some fin" and "done_flag fin \<noteq> 0"
  shows "\<exists>d'. dispatch w e d = Some d'
    \<and> effects d' = effects d @ [Send \<lparr>done_flag = 0, ev = e\<rparr>]
         @ concat (map (\<lambda>a. [Recv, Emit (ev a)]) msgs) @ [Recv, Flush]
         @ (if msgs = [] then [Cout ''MacroD swallowed event''] else [])
    \<and> emitted (effects d') = emitted (effects d) @ map ev msgs"
proof -
  let ?d1 = "emit_effect (Send \<lparr>done_flag = 0, ev = e\<rparr>) d"
  have "recv_loop w 0 ?d1 =
    Some (?d1\<lparr>effects := effects ?d1 @ concat (map (\<lambda>a. [Recv, Emit (ev a)]) msgs) @ [Recv]\<rparr>,
          Some (0 + length msgs))"
    using assms(3-5) by (intro recv_loop_done) simp_all
  then show ?thesis
    using assms(1,2) by (simp add: dispatch_def is_passthrough_def Let_def emit_effect_def)
qed

theorem C3_witness:
  "(uint (ev_code key_30) \<in> passthrough_keys two_keyboards \<and> send_ok peer_swallow
    \<and> recvs peer_swallow 0 = Some \<lparr>done_flag = 1, ev = key_30\<rparr>
    \<and> (\<exists>d'. dispatch peer_swallow key_30 two_keyboards = Some d' \<and> emitted (effects d') = []))
   \<and> (send_ok peer_transform
    \<and> recvs peer_transform 0 = Some \<lparr>done_flag = 0, ev = key_57\<rparr>
    \<and> recvs peer_transform 1 = Some \<lparr>done_flag = 0, ev = syn_report\<rparr>
    \<and> recvs peer_transform 2 = Some \<lparr>done_flag = 1, ev = syn_report\<rparr>
    \<and> (\<exists>d'. dispatch peer_transform key_30 two_keyboards = Some d'
          \<and> emitted (effects d') = [key_57, syn_report]))"
proof -
  have h1: "uint (ev_code key_30) \<in> passthrough_keys two_keyboards"
    by (simp add: key_30_def two_keyboards_def)
  have s2: "send_ok peer_swallow"
    by (simp add: peer_swallow_def peer_crash_def)
  have s3: "\<forall>i<length ([]::KBDAction list).
      recvs peer_swallow i = Some ([] ! i) \<and> done_flag ([] ! i) = 0"
    by simp
  have s4: "recvs peer_swallow (length ([]::KBDAction list)) = Some \<lparr>done_flag = 1, ev = key_30\<rparr>"
    by (simp add: peer_swallow_def)
  have s5: "done_flag \<lparr>done_flag = 1, ev = key_30\<rparr> \<noteq> 0"
    by simp
  have t2: "send_ok peer_transform"
    by (simp add: peer_transform_def peer_crash_def)
  have t3: "\<forall>i<length [\<lparr>done_flag = 0, ev = key_57\<rparr>, \<lparr>done_flag = 0, ev = syn_report\<rparr>].
      recvs peer_transform i
        = Some ([\<lparr>done_flag = 0, ev = key_57\<rparr>, \<lparr>done_flag = 0, ev = syn_report\<rparr>] ! i)
      \<and> done_flag ([\<lparr>done_flag = 0, ev = key_57\<rparr>, \<lparr>done_flag = 0, ev = syn_report\<rparr>] ! i) = 0"
    by (simp add: peer_transform_def less_Suc_eq)
  have t4: "recvs peer_transform
      (length [\<lparr>done_flag = 0, ev = key_57\<rparr>, \<lparr>done_flag = 0, ev = syn_report\<rparr>])
        = Some \<lparr>done_flag = 1, ev = syn_report\<rparr>"
    by (simp add: peer_transform_def)
  have t5: "done_flag \<lparr>done_flag = 1, ev = syn_report\<rparr> \<noteq> 0"
    by simp
  have e0: "emitted (effects two_keyboards) = []"
    by (simp add: two_keyboards_def new_daemon_def)
  have a: "\<exists>d'. dispatch peer_swallow key_30 two_keyboards = Some d' \<and> emitted (effects d') = []"
    using C3_reply_replaces_original [OF h1 s2 s3 s4 s5] e0 by auto
  have b: "\<exists>d'. dispatch peer_transform key_30 two_keyboards = Some d'
      \<and> emitted (effects d') = [key_57, syn_report]"
    using C3_reply_replaces_original [OF h1 t2 t3 t4 t5] e0 by auto
  have r: "recvs peer_swallow 0 = Some \<lparr>done_flag = 1, ev = key_30\<rparr>"
      "recvs peer_transform 0 = Some \<lparr>done_flag = 0, ev = key_57\<rparr>"
      "recvs peer_transform 1 = Some \<lparr>done_flag = 0, ev = syn_report\<rparr>"
      "recvs peer_transform 2 = Some \<lparr>done_flag = 1, ev = syn_report\<rparr>"
    by (simp_all add: peer_swallow_def peer_transform_def)
  show ?thesis
    using h1 s2 t2 r a b by (intro conjI)
qed

subsection \<open>Recovery from a socket error\<close>

lemma unlock_one_effects:
  "effects (unlock_one w k d) = effects d
     @ [Syslog LOG_INFO (''Unlocking keyboard due to error: '' @ getName w k @ '' @ '' @ getPhys w k),
        KbdUnlock k]
     @ (if unlock_ok w k then []
        else [Syslog LOG_ERR (''Unable to unlock keyboard: '' @ getName w k), KbdDisable k])"
  by (simp add: unlock_one_def kbd_unlock_def kbd_disable_def Let_def)

lemma unlock_one_state:
  "kbd_state (unlock_one w k d) = (kbd_state d)(k := if unlock_ok w k then OPEN else DISABLED)"
  by (simp add: unlock_one_def kbd_unlock_def kbd_disable_def Let_def)

lemma unlock_one_rest:
  "available_kbds (unlock_one w k d) = available_kbds d"
  "pulled_kbds (unlock_one w k d) = pulled_kbds d"
  "passthrough_keys (unlock_one w k d) = passthrough_keys d"
  "key_sources (unlock_one w k d) = key_sources d"
  by (simp_all add: unlock_one_def kbd_unlock_def kbd_disable_def Let_def)

lemma lock_one_effects:
  "effects (lock_one w k d) = effects d
     @ KbdLock k # (if lock_ok w k then []
                    else [Syslog LOG_ERR (''Unable to lock keyboard: '' @ getName w k)])"
  by (simp add: lock_one_def kbd_lock_def Let_def)

lemma lock_one_state:
  "kbd_state (lock_one w k d) = (if lock_ok w k then (kbd_state d)(k := LOCKED) else kbd_state d)"
  by (simp add: lock_one_def kbd_lock_def Let_def)

lemma lock_one_rest:
  "available_kbds (lock_one w k d) = available_kbds d"
  "pulled_kbds (lock_one w k d) = pulled_kbds d"
  "passthrough_keys (lock_one w k d) = passthrough_keys d"
  "key_sources (lock_one w k d) = key_sources d"
  by (simp_all add: lock_one_def kbd_lock_def Let_def)

lemma fold_unlock_effects:
  "effects (fold (unlock_one w) ks d) = effects d
     @ concat (map (\<lambda>k.
         [Syslog LOG_INFO (''Unlocking keyboard due to error: '' @ getName w k @ '' @ '' @ getPhys w k),
          KbdUnlock k]
         @ (if unlock_ok w k then []
            else [Syslog LOG_ERR (''Unable to unlock keyboard: '' @ getName w k), KbdDisable k])) ks)"
  by (induction ks arbitrary: d) (simp_all add: unlock_one_effects)

lemma fold_unlock_state:
  "kbd_state (fold (unlock_one w) ks d) k =
     (if k \<in> set ks then (if unlock_ok w k then OPEN else DISABLED) else kbd_state d k)"
  by (induction ks arbitrary: d) (simp_all add: unlock_one_state)

lemma fold_unlock_rest:
  "available_kbds (fold (unlock_one w) ks d) = available_kbds d"
  "pulled_kbds (fold (unlock_one w) ks d) = pulled_kbds d"
  by (induction ks arbitrary: d) (simp_all add: unlock_one_rest)

lemma fold_lock_effects:
  "effects (fold (lock_one w) ks d) = effects d
     @ concat (map (\<lambda>k. KbdLock k # (if lock_ok w k then []
                    else [Syslog LOG_ERR (''Unable to lock keyboard: '' @ getName w k)])) ks)"
  by (induction ks arbitrary: d) (simp_all add: lock_one_effects)

lemma fold_lock_state:
  "kbd_state (fold (lock_one w) ks d) k =
     (if k \<in> set ks \<and> lock_ok w k then LOCKED else kbd_state d k)"
  by (induction ks arbitrary: d) (simp_all add: lock_one_state)

lemma fold_lock_rest:
  "available_kbds (fold (lock_one w) ks d) = available_kbds d"
  "pulled_kbds (fold (lock_one w) ks d) = pulled_kbds d"
  by (induction ks arbitrary: d) (simp_all add: lock_one_rest)

lemma on_socket_error_effects:
  "effects (on_socket_error w e d) = effects d
     @ [Cout ''Resetting connection ...'', Emit e, UpAll, Flush, UpAll, Flush]
     @ concat (map (\<lambda>k.
         [Syslog LOG_INFO (''Unlocking keyboard due to error: '' @ getName w k @ '' @ '' @ getPhys w k),
          KbdUnlock k]
         @ (if unlock_ok w k then []
            else [Syslog LOG_ERR (''Unable to unlock keyboard: '' @ getName w k), KbdDisable k]))
         (available_kbds d))
     @ [Syslog LOG_CRIT ''Unable to communicate with MacroD, reconnecting ...'', Recon]
     @ concat (map (\<lambda>k. KbdLock k # (if lock_ok w k then []
                    else [Syslog LOG_ERR (''Unable to lock keyboard: '' @ getName w k)]))
         (available_kbds d))"
  by (simp add: on_socket_error_def Let_def fold_lock_effects fold_unlock_effects fold_unlock_rest)

lemma on_socket_error_state:
  "kbd_state (on_socket_error w e d) k =
     (if k \<in> set (available_kbds d)
      then (if lock_ok w k then LOCKED else if unlock_ok w k then OPEN else DISABLED)
      else kbd_state d k)"
  by (simp add: on_socket_error_def Let_def fold_lock_state fold_unlock_state fold_unlock_rest)

lemma on_socket_error_rest:
  "available_kbds (on_socket_error w e d) = available_kbds d"
  "pulled_kbds (on_socket_error w e d) = pulled_kbds d"
  by (simp_all add: on_socket_error_def Let_def fold_lock_rest fold_unlock_rest)

text \<open>
  C1, as stated, fails in one point: a keyboard that fails to re-lock is not disabled.
  With the request refused by the peer and keyboard 1 refusing the grab, keyboard 1 is
  left \<open>OPEN\<close> and \<^verbatim>\<open>disable\<close> is never called on it.
\<close>

theorem C1_relock_failure_counterexample:
  "uint (ev_code key_30) \<in> passthrough_keys two_keyboards
   \<and> \<not> send_ok peer_gone
   \<and> 1 \<in> set (available_kbds two_keyboards)
   \<and> \<not> lock_ok peer_gone 1
   \<and> dispatch peer_gone key_30 two_keyboards \<noteq> None
   \<and> kbd_state (the (dispatch peer_gone key_30 two_keyboards)) 1 = OPEN
   \<and> KbdDisable 1 \<notin> set (effects (the (dispatch peer_gone key_30 two_keyboards)))"
  by code_simp

text \<open>
  C1, amended. For an event whose code is in \<open>passthrough_keys\<close>, when \<^verbatim>\<open>send\<close> fails,
  or \<^verbatim>\<open>recv\<close> fails after the reply messages \<open>msgs\<close>, the iteration completes and does,
  in this order: emit the original event, call \<^verbatim>\<open>upAll\<close> and \<^verbatim>\<open>flush\<close> twice, unlock every
  active keyboard and disable those whose unlock fails, reconnect, lock every active
  keyboard and log those whose lock fails. An active keyboard ends \<open>LOCKED\<close> when its
  lock succeeds; otherwise it is \<open>OPEN\<close> when its unlock succeeded and \<open>DISABLED\<close> when
  it did not. The lists of active and pulled keyboards are unchanged and the current
  event is not emitted a second time.
\<close>

theorem C1_socket_error_recovery:
  assumes "uint (ev_code e) \<in> passthrough_keys d"
    and "\<forall>i<length msgs. recvs w i = Some (msgs ! i) \<and> done_flag (msgs ! i) = 0"
    and "\<not> send_ok w \<and> msgs = [] \<or> send_ok w \<and> recvs w (length msgs) = None"
  shows "\<exists>d'. dispatch w e d = Some d'
    \<and> effects d' = effects d @ [Send \<lparr>done_flag = 0, ev = e\<rparr>]
        @ concat (map (\<lambda>a. [Recv, Emit (ev a)]) msgs) @ (if send_ok w then [Recv] else [])
        @ [Cout ''Resetting connection ...'', Emit e, UpAll, Flush, UpAll, Flush]
        @ concat (map (\<lambda>k.
            [Syslog LOG_INFO (''Unlocking keyboard due to error: '' @ getName w k @ '' @ '' @ getPhys w k),
             KbdUnlock k]
            @ (if unlock_ok w k then []
               else [Syslog LOG_ERR (''Unable to unlock keyboard: '' @ getName w k), KbdDisable k]))
            (available_kbds d))
        @ [Syslog LOG_CRIT ''Unable to communicate with MacroD, reconnecting ...'', Recon]
        @ concat (map (\<lambda>k. KbdLock k # (if lock_ok w k then []
                    else [Syslog LOG_ERR (''Unable to lock keyboard: '' @ getName w k)]))
            (available_kbds d))
    \<and> (\<forall>k. kbd_state d' k =
          (if k \<in> set (available_kbds d)
           then (if lock_ok w k then LOCKED else if unlock_ok w k then OPEN else DISABLED)
           else kbd_state d k))
    \<and> available_kbds d' = available_kbds d \<and> pulled_kbds d' = pulled_kbds d"
proof (cases "send_ok w")
  case False
  with assms(3) have "msgs = []" by simp
  with False assms(1) show ?thesis
    by (simp add: dispatch_def is_passthrough_def Let_def on_socket_error_effects
          on_socket_error_state on_socket_error_rest)
next
  case True
  let ?d1 = "emit_effect (Send \<lparr>done_flag = 0, ev = e\<rparr>) d"
  from True assms(3) have err: "recvs w (0 + length msgs) = None" by simp
  have "recv_loop w 0 ?d1 =
    Some (?d1\<lparr>effects := effects ?d1 @ concat (map (\<lambda>a. [Recv, Emit (ev a)]) msgs) @ [Recv]\<rparr>,
          None)"
    using assms(2) err by (intro recv_loop_error) simp_all
  with True assms(1) show ?thesis
    by (simp add: dispatch_def is_passthrough_def Let_def on_socket_error_effects
          on_socket_error_state on_socket_error_rest)
qed

theorem C1_witness:
  "uint (ev_code key_30) \<in> passthrough_keys two_keyboards
   \<and> send_ok peer_crash
   \<and> recvs peer_crash 0 = Some \<lparr>done_flag = 0, ev = key_57\<rparr>
   \<and> recvs peer_crash 1 = None
   \<and> \<not> lock_ok peer_crash 1 \<and> unlock_ok peer_crash 1
   \<and> (\<exists>d'. dispatch peer_crash key_30 two_keyboards = Some d'
         \<and> emitted (effects d') = [key_57, key_30]
         \<and> kbd_state d' 0 = LOCKED \<and> kbd_state d' 1 = OPEN
         \<and> available_kbds d' = [0, 1])"
proof -
  have h1: "uint (ev_code key_30) \<in> passthrough_keys two_keyboards"
    by (simp add: key_30_def two_keyboards_def)
  have h2: "\<forall>i<length [\<lparr>done_flag = 0, ev = key_57\<rparr>].
         recvs peer_crash i = Some ([\<lparr>done_flag = 0, ev = key_57\<rparr>] ! i)
         \<and> done_flag ([\<lparr>done_flag = 0, ev = key_57\<rparr>] ! i) = 0"
    by (simp add: peer_crash_def)
  have h3: "\<not> send_ok peer_crash \<and> [\<lparr>done_flag = 0, ev = key_57\<rparr>] = []
        \<or> send_ok peer_crash \<and> recvs peer_crash (length [\<lparr>done_flag = 0, ev = key_57\<rparr>]) = None"
    by (simp add: peer_crash_def)
  obtain d' where d': "dispatch peer_crash key_30 two_keyboards = Some d'"
      "effects d' = effects two_keyboards @ [Send \<lparr>done_flag = 0, ev = key_30\<rparr>]
        @ concat (map (\<lambda>a. [Recv, Emit (ev a)]) [\<lparr>done_flag = 0, ev = key_57\<rparr>])
        @ (if send_ok peer_crash then [Recv] else [])
        @ [Cout ''Resetting connection ...'', Emit key_30, UpAll, Flush, UpAll, Flush]
        @ concat (map (\<lambda>k.
            [Syslog LOG_INFO (''Unlocking keyboard due to error: '' @ getName peer_crash k
               @ '' @ '' @ getPhys peer_crash k),
             KbdUnlock k]
            @ (if unlock_ok peer_crash k then []
               else [Syslog LOG_ERR (''Unable to unlock keyboard: '' @ getName peer_crash k),
                     KbdDisable k]))
            (available_kbds two_keyboards))
        @ [Syslog LOG_CRIT ''Unable to communicate with MacroD, reconnecting ...'', Recon]
        @ concat (map (\<lambda>k. KbdLock k # (if lock_ok peer_crash k then []
                    else [Syslog LOG_ERR (''Unable to lock keyboard: '' @ getName peer_crash k)]))
            (available_kbds two_keyboards))"
      "\<forall>k. kbd_state d' k =
          (if k \<in> set (available_kbds two_keyboards)
           then (if lock_ok peer_crash k then LOCKED
                 else if unlock_ok peer_crash k then OPEN else DISABLED)
           else kbd_state two_keyboards k)"
      "available_kbds d' = available_kbds two_keyboards"
    using C1_socket_error_recovery [OF h1 h2 h3] by blast
  have "emitted (effects d') = [key_57, key_30]"
    by (simp add: d'(2) two_keyboards_def new_daemon_def peer_crash_def emitted_def)
  moreover have "kbd_state d' 0 = LOCKED" "kbd_state d' 1 = OPEN"
    by (simp_all add: d'(3) two_keyboards_def peer_crash_def)
  moreover have "available_kbds d' = [0, 1]"
    by (simp add: d'(4) two_keyboards_def)
  moreover have "send_ok peer_crash" "recvs peer_crash 0 = Some \<lparr>done_flag = 0, ev = key_57\<rparr>"
      "recvs peer_crash 1 = None" "\<not> lock_ok peer_crash 1" "unlock_ok peer_crash 1"
    by (simp_all add: peer_crash_def)
  ultimately show ?thesis
    using h1 d'(1) by blast
qed

subsection \<open>Reading a key\<close>

text \<open>
  A key read from a locked keyboard reaches \<open>dispatch\<close>; nothing else does.
\<close>

lemma iteration_locked_key:
  assumes "kbdMultiplex w (available_kbds d) = Some idx" and "idx < length (available_kbds d)"
    and "k = available_kbds d ! idx" and "kbd_get w k = Some e" and "kbd_state d k = LOCKED"
  shows "iteration w d = dispatch w e (emit_effect (KbdGet k) d)"
  using assms by (simp add: iteration_def read_key_def Let_def)

lemma read_key_had_key:
  assumes "read_key w d = Some (d', Some e)"
  shows "\<exists>idx. kbdMultiplex w (available_kbds d) = Some idx \<and> idx < length (available_kbds d)
    \<and> kbd_get w (available_kbds d ! idx) = Some e
    \<and> kbd_state d (available_kbds d ! idx) = LOCKED"
  using assms
  by (auto simp: read_key_def Let_def kbd_lock_def split: option.splits if_splits prod.splits)

text \<open>
  C7. When \<^verbatim>\<open>kbd->get\<close> throws on the keyboard \<open>k\<close> that the multiplexer selected, the
  iteration completes with \<open>k\<close> disabled, erased from the list of active keyboards and
  appended to the list of pulled keyboards; nothing is emitted and the loop goes on
  with the next iteration.
\<close>

theorem C7_read_error_moves_keyboard_to_pending:
  assumes "kbdMultiplex w (available_kbds d) = Some idx" and "idx < length (available_kbds d)"
    and "k = available_kbds d ! idx" and "kbd_get w k = None"
  shows "iteration w d =
    Some (d\<lparr>available_kbds := remove1 k (available_kbds d),
            pulled_kbds := pulled_kbds d @ [k],
            kbd_state := (kbd_state d)(k := DISABLED),
            effects := effects d @ [KbdGet k,
              Syslog LOG_ERR (''Read error on keyboard, assumed to be removed: '' @ getName w k),
              KbdDisable k]\<rparr>)"
  using assms
  by (simp add: iteration_def read_key_def on_keyboard_error_def kbd_disable_def Let_def
        syslog_def emit_effect_def)

theorem C7_witness:
  "kbdMultiplex unplugged (available_kbds two_keyboards) = Some 1
   \<and> 1 < length (available_kbds two_keyboards)
   \<and> (1::nat) = available_kbds two_keyboards ! 1
   \<and> kbd_get unplugged 1 = None
   \<and> iteration unplugged two_keyboards =
       Some (two_keyboards\<lparr>available_kbds := remove1 1 (available_kbds two_keyboards),
            pulled_kbds := pulled_kbds two_keyboards @ [1],
            kbd_state := (kbd_state two_keyboards)(1 := DISABLED),
            effects := effects two_keyboards @ [KbdGet 1,
              Syslog LOG_ERR (''Read error on keyboard, assumed to be removed: '' @ getName unplugged 1),
              KbdDisable 1]\<rparr>)"
proof -
  have h1: "kbdMultiplex unplugged (available_kbds two_keyboards) = Some 1"
    by (simp add: unplugged_def)
  have h2: "1 < length (available_kbds two_keyboards)"
    by (simp add: two_keyboards_def)
  have h3: "(1::nat) = available_kbds two_keyboards ! 1"
    by (simp add: two_keyboards_def)
  have h4: "kbd_get unplugged 1 = None"
    by (simp add: unplugged_def peer_crash_def)
  show ?thesis
    using h1 h2 h3 h4 C7_read_error_moves_keyboard_to_pending [OF h1 h2 h3 h4] by simp
qed

section \<open>The hotplug callback\<close>

text \<open>
  The test of the group permission bits never succeeds: \<^verbatim>\<open>grp_perm\<close> keeps the bits of
  \<^verbatim>\<open>S_IRWXG\<close> (octal 70) only, and the loop condition tests the bits 4 and 2 of it. The
  wait therefore goes on only while \<^verbatim>\<open>stat\<close> succeeds and the group is not \<^verbatim>\<open>input\<close>.
\<close>

lemma group_test_dead: "(4::32 word) AND (m AND S_IRWXG) = 0"
proof -
  have "(4::32 word) AND (m AND S_IRWXG) = m AND (4 AND S_IRWXG)"
    by (simp add: ac_simps)
  also have "(4::32 word) AND S_IRWXG = 0"
    by (simp add: S_IRWXG_def)
  finally show ?thesis by simp
qed

lemma keep_waiting_gid_only: "keep_waiting input_gid (Some st) = (st_gid st \<noteq> input_gid)"
  by (simp add: keep_waiting_def Let_def group_test_dead)

lemma wait_ends_when_stat_fails:
  assumes "polls n = None" and "wait_time + wait_inc_us \<le> FSW_MAX_WAIT_PERMISSIONS_US"
  shows "wait_permissions polls input_gid n wait_time = (Proceed, Suc n)"
  using assms by (subst wait_permissions.simps) (simp add: keep_waiting_def Let_def)

lemma wait_ends_in_group_input:
  assumes "polls n = Some st" and "S_ISCHR (st_mode st)" and "st_gid st = input_gid"
    and "wait_time + wait_inc_us \<le> FSW_MAX_WAIT_PERMISSIONS_US"
  shows "wait_permissions polls input_gid n wait_time = (Proceed, Suc n)"
  using assms by (subst wait_permissions.simps) (simp add: keep_waiting_gid_only Let_def)

text \<open>
  C6. The code does not wait for the group permissions the claim names. For a node that
  is a character device in group \<^verbatim>\<open>input\<close> with no group permission at all, the wait
  ends after one poll of 100 microseconds and the callback resets and grabs the matching
  keyboard, which moves from the pulled list to the active list.
\<close>

theorem C6_wait_ignores_group_permissions:
  "S_ISCHR (st_mode restricted_node)
   \<and> st_mode restricted_node AND S_IRWXG = 0
   \<and> wait_permissions (stat_at replug) 104 0 0 = (Proceed, 1)
   \<and> available_kbds (fst (hotplug_callback peer_crash replug 104 replug_event one_pulled)) = [7]
   \<and> pulled_kbds (fst (hotplug_callback peer_crash replug 104 replug_event one_pulled)) = []
   \<and> kbd_state (fst (hotplug_callback peer_crash replug 104 replug_event one_pulled)) 7 = LOCKED"
  by code_simp

end
